theory Spec2Isabelle
  imports Complex_Main
begin

section \<open>JavaScript values as the validator observes them\<close>

text \<open>
  The plugin of \<open>src/index.js\<close> inspects frontmatter values and type descriptors with
  \<open>typeof\<close>, \<open>!\<close>, \<open>===\<close>, \<open>toString()\<close> and \<open>instanceof\<close>. A value is modelled by
  what these operators can observe. Strings are lists of 8-bit characters. An object
  (plain object, array, function, wrapper object) carries its identity, an \<open>objinfo\<close>
  and its own enumerable properties in \<open>Object.keys\<close> order. Objects are ordinary
  objects: no proxy, no bound function, no own \<open>Symbol.hasInstance\<close>. BigInt values
  are not modelled.
\<close>

type_synonym ref = nat

datatype number = NaN | PosInfinity | NegInfinity | Finite rat
  \<comment> \<open>\<open>+0\<close> and \<open>-0\<close> are both \<open>Finite 0\<close>: \<open>===\<close>, \<open>!\<close> and \<open>typeof\<close> do not tell them apart\<close>

record objinfo =
  callable :: bool
    \<comment> \<open>the object has a [[Call]] slot: \<open>typeof\<close> answers \<open>function\<close>\<close>
  toStringResult :: "string option"
    \<comment> \<open>what \<open>obj.toString()\<close> returns; \<open>None\<close> when the call throws or returns no string\<close>
  prototypeProp :: "ref option"
    \<comment> \<open>the object stored under the property \<open>prototype\<close>, \<open>None\<close> when that is no object\<close>
  protoChain :: "ref list"
    \<comment> \<open>the objects reached by following [[Prototype]] from this object\<close>

datatype val =
    Undefined
  | Null
  | Boolean bool
  | Number number
  | String string
  | Symbol ref string
  | Object ref objinfo "(string \<times> val) list"

datatype error = TypeError | Thrown
  \<comment> \<open>\<open>Thrown\<close>: an exception raised by a user-supplied \<open>toString\<close>\<close>

fun truthy :: "val \<Rightarrow> bool" where
  "truthy Undefined = False"
| "truthy Null = False"
| "truthy (Boolean b) = b"
| "truthy (Number n) = (n \<noteq> NaN \<and> n \<noteq> Finite 0)"
| "truthy (String s) = (s \<noteq> [])"
| "truthy (Symbol r d) = True"
| "truthy (Object r i ps) = True"

fun typeof :: "val \<Rightarrow> string" where
  "typeof Undefined = ''undefined''"
| "typeof Null = ''object''"
| "typeof (Boolean b) = ''boolean''"
| "typeof (Number n) = ''number''"
| "typeof (String s) = ''string''"
| "typeof (Symbol r d) = ''symbol''"
| "typeof (Object r i ps) = (if callable i then ''function'' else ''object'')"

text \<open>Strict equality \<open>===\<close>: objects and symbols by identity, \<open>NaN\<close> equal to nothing.\<close>

fun strictEq :: "val \<Rightarrow> val \<Rightarrow> bool" where
  "strictEq Undefined Undefined = True"
| "strictEq Null Null = True"
| "strictEq (Boolean a) (Boolean b) = (a = b)"
| "strictEq (Number a) (Number b) = (a \<noteq> NaN \<and> a = b)"
| "strictEq (String a) (String b) = (a = b)"
| "strictEq (Symbol r d) (Symbol r' d') = (r = r')"
| "strictEq (Object r i ps) (Object r' i' ps') = (r = r')"
| "strictEq _ _ = False"

text \<open>
  \<open>value instanceof type\<close>. The right-hand side must be callable (every function inherits
  \<open>Function.prototype[Symbol.hasInstance]\<close>, which runs OrdinaryHasInstance); anything
  else raises a TypeError. OrdinaryHasInstance answers \<open>false\<close> for a primitive left-hand
  side before it reads \<open>type.prototype\<close>, raises a TypeError when \<open>type.prototype\<close> is not
  an object, and otherwise searches the prototype chain of the value.
\<close>

fun instanceof :: "val \<Rightarrow> val \<Rightarrow> error + bool" where
  "instanceof v (Object c ci cps) =
     (if \<not> callable ci then Inl TypeError
      else (case v of
              Object r i ps \<Rightarrow>
                (case prototypeProp ci of
                   None \<Rightarrow> Inl TypeError
                 | Some p \<Rightarrow> Inr (p \<in> set (protoChain i)))
            | _ \<Rightarrow> Inr False))"
| "instanceof v _ = Inl TypeError"

section \<open>The type matcher\<close>

text \<open>The character classes \<open>\s\<close> and \<open>\w\<close> of JavaScript regular expressions, on 8-bit characters.\<close>

definition isSpace :: "char \<Rightarrow> bool" where
  "isSpace c = (of_char c \<in> {9, 10, 11, 12, 13, 32, 160 :: nat})"

definition isWord :: "char \<Rightarrow> bool" where
  "isWord c =
     (let n = (of_char c :: nat)
      in (48 \<le> n \<and> n \<le> 57) \<or> (65 \<le> n \<and> n \<le> 90) \<or> n = 95 \<or> (97 \<le> n \<and> n \<le> 122))"

text \<open>
  \<open>s.match(/^\s*function (\w+)/)\<close>: the first capture group, \<open>None\<close> when there is no match.
  The word \<open>function\<close> starts with no white space, so the greedy \<open>\s*\<close> never backtracks.
\<close>

definition matchFunctionName :: "string \<Rightarrow> string option" where
  "matchFunctionName s =
     (let rest = dropWhile isSpace s
      in if take 9 rest = ''function '' then
           (let name = takeWhile isWord (drop 9 rest)
            in if name = [] then None else Some name)
         else None)"

text \<open>
  \<open>fn.toString().match(/^\s*function (\w+)/)\<close> for a truthy \<open>fn\<close>. The rendering of a
  number starts with a digit, a minus sign, \<open>I\<close> or \<open>N\<close>, so it never matches.
\<close>

fun toStringMatch :: "val \<Rightarrow> error + string option" where
  "toStringMatch Undefined = Inl TypeError"
| "toStringMatch Null = Inl TypeError"
| "toStringMatch (Boolean b) = Inr (matchFunctionName (if b then ''true'' else ''false''))"
| "toStringMatch (Number n) = Inr None"
| "toStringMatch (String s) = Inr (matchFunctionName s)"
| "toStringMatch (Symbol r d) = Inr (matchFunctionName (''Symbol('' @ d @ '')''))"
| "toStringMatch (Object r i ps) =
     (case toStringResult i of
        None \<Rightarrow> Inl Thrown
      | Some s \<Rightarrow> Inr (matchFunctionName s))"

definition getType :: "val \<Rightarrow> error + string" where
  "getType fn =
     (if \<not> truthy fn then Inr ''''
      else (case toStringMatch fn of
              Inl e \<Rightarrow> Inl e
            | Inr m \<Rightarrow> Inr (case m of Some name \<Rightarrow> name | None \<Rightarrow> '''')))"

definition simpleCheckRE :: "string \<Rightarrow> bool" where
  "simpleCheckRE s = (s \<in> {''String'', ''Number'', ''Boolean'', ''Function'', ''Symbol''})"

definition toLowerCase :: "string \<Rightarrow> string" where
  "toLowerCase s =
     map (\<lambda>c. let n = (of_char c :: nat) in if 65 \<le> n \<and> n \<le> 90 then char_of (n + 32) else c) s"

record assertResult =
  valid :: bool
  expectedType :: string

definition assertType :: "val \<Rightarrow> val \<Rightarrow> error + assertResult" where
  "assertType v type =
     (case getType type of
        Inl e \<Rightarrow> Inl e
      | Inr expected \<Rightarrow>
          (if simpleCheckRE expected then
             (let t = typeof v; ok = (t = toLowerCase expected)
              in if \<not> ok \<and> t = ''object'' then
                   (case instanceof v type of
                      Inl e \<Rightarrow> Inl e
                    | Inr b \<Rightarrow> Inr \<lparr>valid = b, expectedType = expected\<rparr>)
                 else Inr \<lparr>valid = ok, expectedType = expected\<rparr>)
           else
             (case instanceof v type of
                Inl e \<Rightarrow> Inl e
              | Inr b \<Rightarrow> Inr \<lparr>valid = b, expectedType = expected\<rparr>)))"

section \<open>Schema, documents and violations\<close>

text \<open>
  A field spec is the object literal \<open>{ required, type, allowedValues }\<close>. The code compares
  \<open>required\<close> with \<open>=== true\<close> and hands \<open>type\<close> to \<open>getType\<close> and \<open>instanceof\<close>, so both
  stay JavaScript values. \<open>allowedValues\<close> is \<open>None\<close> when the spec has no own property
  of that name and otherwise the elements of the array stored there.
\<close>

record fieldspec =
  required :: val
  type :: val
  allowedValues :: "val list option"

text \<open>
  What \<open>options.specs\<close> can hold: a primitive, a function, a plain object of field specs
  (own enumerable entries in \<open>Object.keys\<close> order) or an array of field specs.
\<close>

datatype specs_value =
    SUndefined
  | SNull
  | SBoolean bool
  | SNumber number
  | SString string
  | SSymbol
  | SFunction
  | SMapping "(string \<times> fieldspec) list"
  | SList "fieldspec list"

fun truthySpecs :: "specs_value \<Rightarrow> bool" where
  "truthySpecs SUndefined = False"
| "truthySpecs SNull = False"
| "truthySpecs (SBoolean b) = b"
| "truthySpecs (SNumber n) = (n \<noteq> NaN \<and> n \<noteq> Finite 0)"
| "truthySpecs (SString s) = (s \<noteq> [])"
| "truthySpecs SSymbol = True"
| "truthySpecs SFunction = True"
| "truthySpecs (SMapping es) = True"
| "truthySpecs (SList xs) = True"

fun typeofSpecs :: "specs_value \<Rightarrow> string" where
  "typeofSpecs SUndefined = ''undefined''"
| "typeofSpecs SNull = ''object''"
| "typeofSpecs (SBoolean b) = ''boolean''"
| "typeofSpecs (SNumber n) = ''number''"
| "typeofSpecs (SString s) = ''string''"
| "typeofSpecs SSymbol = ''symbol''"
| "typeofSpecs SFunction = ''function''"
| "typeofSpecs (SMapping es) = ''object''"
| "typeofSpecs (SList xs) = ''object''"

text \<open>The property keys of an array: its indices in decimal.\<close>

function decimal :: "nat \<Rightarrow> string" where
  "decimal n =
     (if n < 10 then [char_of (48 + n)]
      else decimal (n div 10) @ [char_of (48 + n mod 10)])"
  by pat_completeness auto
termination
  by (relation "measure id") auto

definition entries :: "specs_value \<Rightarrow> (string \<times> fieldspec) list" where
  "entries sv =
     (case sv of
        SMapping es \<Rightarrow> es
      | SList xs \<Rightarrow> zip (map decimal [0..<length xs]) xs
      | _ \<Rightarrow> [])"

text \<open>
  \<open>hasOwn(specs, key)\<close> followed by \<open>specs[key]\<close>: \<open>None\<close> when \<open>specs\<close> has no own property
  \<open>key\<close>. An array also owns \<open>length\<close>; the number stored there has no \<open>required\<close>, no
  \<open>type\<close> and no own \<open>allowedValues\<close>.
\<close>

definition lookupSpec :: "specs_value \<Rightarrow> string \<Rightarrow> fieldspec option" where
  "lookupSpec sv key =
     (case map_of (entries sv) key of
        Some spec \<Rightarrow> Some spec
      | None \<Rightarrow>
          (case sv of
             SList xs \<Rightarrow>
               (if key = ''length''
                then Some \<lparr>required = Undefined, type = Undefined, allowedValues = None\<rparr>
                else None)
           | _ \<Rightarrow> None))"

text \<open>\<open>Object.keys(pickBy(specs, s => s.required === true))\<close>\<close>

definition requiredFields :: "specs_value \<Rightarrow> string list" where
  "requiredFields sv = map fst (filter (\<lambda>(k, s). strictEq (required s) (Boolean True)) (entries sv))"

record page =
  regularPath :: string
  frontmatter :: "(string \<times> val) list"
    \<comment> \<open>own enumerable properties in \<open>Object.keys\<close> order; the keys are distinct\<close>

text \<open>
  The error objects pushed by \<open>addError\<close>. \<open>INVALID_TYPE key expected got\<close>;
  \<open>INVALID_VALUE key expected got\<close>, where \<open>expected\<close> holds the allowed values that the code
  renders with \<open>JSON.stringify\<close>.
\<close>

datatype violation =
    MISSING_KEY string
  | EMPTY_KEY
  | INVALID_KEY string
  | EMPTY_VALUE string
  | INVALID_TYPE string string string
  | INVALID_VALUE string "val list" val

section \<open>The error collector\<close>

text \<open>
  \<open>errorsByPath\<close>: an object from path to array of errors, as an association list in
  insertion order. Paths are page paths (they start with a slash), so none of them names
  a member of \<open>Object.prototype\<close> or an array index.
\<close>

type_synonym collector = "(string \<times> violation list) list"

fun push :: "string \<Rightarrow> violation \<Rightarrow> collector \<Rightarrow> collector" where
  "push path e [] = []"
| "push path e ((p, es) # rest) =
     (if p = path then (p, es @ [e]) # rest else (p, es) # push path e rest)"

definition addError :: "collector \<Rightarrow> string \<Rightarrow> violation \<Rightarrow> collector" where
  "addError errors path e =
     push path e (if map_of errors path = None then errors @ [(path, [])] else errors)"

section \<open>The plugin\<close>

datatype outcome = Normal | Threw error

fun forEach :: "('a \<Rightarrow> 's \<Rightarrow> outcome \<times> 's) \<Rightarrow> 'a list \<Rightarrow> 's \<Rightarrow> outcome \<times> 's" where
  "forEach f [] s = (Normal, s)"
| "forEach f (x # xs) s =
     (case f x s of
        (Normal, s') \<Rightarrow> forEach f xs s'
      | (Threw e, s') \<Rightarrow> (Threw e, s'))"

text \<open>\<open>allowedValues.indexOf(value)\<close> on an array: the first index whose element is \<open>===\<close>.\<close>

fun indexOf :: "val list \<Rightarrow> val \<Rightarrow> int" where
  "indexOf [] v = - 1"
| "indexOf (x # xs) v =
     (if strictEq x v then 0
      else (let i = indexOf xs v in if i = - 1 then - 1 else i + 1))"

definition assertAllowedValue :: "val \<Rightarrow> val list \<Rightarrow> bool" where
  "assertAllowedValue v allowed = (indexOf allowed v > - 1)"

text \<open>\<open>frontmatter[key]\<close>\<close>

definition valueAt :: "(string \<times> val) list \<Rightarrow> string \<Rightarrow> val" where
  "valueAt fm key = (case map_of fm key of Some v \<Rightarrow> v | None \<Rightarrow> Undefined)"

text \<open>The callback of \<open>Object.keys(frontmatter).forEach\<close> (lines 55 to 98).\<close>

definition checkKey ::
  "specs_value \<Rightarrow> string \<Rightarrow> (string \<times> val) list \<Rightarrow> string \<Rightarrow> collector \<Rightarrow> outcome \<times> collector"
where
  "checkKey sv path fm key errors =
     (if key = [] then (Normal, addError errors path EMPTY_KEY)
      else (case lookupSpec sv key of
        None \<Rightarrow> (Normal, addError errors path (INVALID_KEY key))
      | Some spec \<Rightarrow>
          (let v = valueAt fm key
           in if v = Null \<or> typeof v = ''undefined''
              then (Normal, addError errors path (EMPTY_VALUE key))
              else (case assertType v (type spec) of
                Inl e \<Rightarrow> (Threw e, errors)
              | Inr r \<Rightarrow>
                  (if \<not> valid r then
                     (case getType (type spec) of
                        Inl e \<Rightarrow> (Threw e, errors)
                      | Inr expected \<Rightarrow>
                          (Normal, addError errors path (INVALID_TYPE key expected (typeof v))))
                   else (case allowedValues spec of
                     Some allowed \<Rightarrow>
                       (if \<not> assertAllowedValue v allowed
                        then (Normal, addError errors path (INVALID_VALUE key allowed v))
                        else (Normal, errors))
                   | None \<Rightarrow> (Normal, errors)))))))"

text \<open>The callback of \<open>Object.keys(requiredFields).forEach\<close> (lines 45 to 53).\<close>

definition checkRequired ::
  "string \<Rightarrow> (string \<times> val) list \<Rightarrow> string \<Rightarrow> collector \<Rightarrow> outcome \<times> collector"
where
  "checkRequired path fm fieldName errors =
     (if fieldName \<notin> set (map fst fm)
      then (Normal, addError errors path (MISSING_KEY fieldName))
      else (Normal, errors))"

text \<open>
  The options of the plugin. \<open>exclude\<close> is the test \<open>mm([regularPath], exclude).length\<close> of
  the micromatch library on the configured patterns, which are \<open>[]\<close> by default.
\<close>

record options =
  specs :: specs_value
  exclude :: "string \<Rightarrow> bool"
  postProcessErrors :: "(collector \<Rightarrow> collector) option"
  dumpToFile :: bool
  abortBuild :: bool

definition extendPageData :: "options \<Rightarrow> page \<Rightarrow> collector \<Rightarrow> outcome \<times> collector" where
  "extendPageData opts pg errors =
     (if exclude opts (regularPath pg) then (Normal, errors)
      else (case forEach (checkRequired (regularPath pg) (frontmatter pg))
                   (requiredFields (specs opts)) errors of
              (Threw e, errs) \<Rightarrow> (Threw e, errs)
            | (Normal, errs) \<Rightarrow>
                forEach (checkKey (specs opts) (regularPath pg) (frontmatter pg))
                  (map fst (frontmatter pg)) errs))"

text \<open>What the plugin hands to the console, the dump file and the process.\<close>

datatype effect = ConsoleReport collector | DumpFile collector | Exit

record pstate =
  errorsByPath :: collector
  effects :: "effect list"
  thrown :: "error option"

definition updated :: "pstate \<Rightarrow> pstate" where
  "updated s =
     (if errorsByPath s \<noteq> []
      then s\<lparr>effects := effects s @ [ConsoleReport (errorsByPath s)]\<rparr>
      else s)"

definition ready :: "options \<Rightarrow> pstate \<Rightarrow> pstate" where
  "ready opts s =
     (let errs = (case postProcessErrors opts of
                    Some f \<Rightarrow> f (errorsByPath s)
                  | None \<Rightarrow> errorsByPath s)
      in if errs \<noteq> [] then
           s\<lparr>errorsByPath := [],
             effects := effects s @ [ConsoleReport errs]
               @ (if dumpToFile opts then [DumpFile errs] else [])
               @ (if abortBuild opts then [Exit] else [])\<rparr>
         else s\<lparr>errorsByPath := errs\<rparr>)"

text \<open>
  The module's exported function (lines 9 to 30): with falsy \<open>specs\<close> or with \<open>specs\<close> that
  are no object it logs a message and returns a plugin that has a name and no hook.
\<close>

datatype message = NoSpecsFound | InvalidSpecsType string

datatype plugin = NameOnly message | WithHooks

definition pluginInit :: "options \<Rightarrow> plugin" where
  "pluginInit opts =
     (if \<not> truthySpecs (specs opts) then NameOnly NoSpecsFound
      else if typeofSpecs (specs opts) \<noteq> ''object''
      then NameOnly (InvalidSpecsType (typeofSpecs (specs opts)))
      else WithHooks)"

text \<open>
  The host calls the hooks the plugin has. A plugin without hooks ignores every call; an
  exception thrown by \<open>extendPageData\<close> is kept in \<open>thrown\<close>, with the collector as the
  hook left it.
\<close>

datatype call = ExtendPageData page | Updated | Ready

fun invoke :: "options \<Rightarrow> plugin \<Rightarrow> pstate \<Rightarrow> call \<Rightarrow> pstate" where
  "invoke opts (NameOnly m) s c = s"
| "invoke opts WithHooks s (ExtendPageData pg) =
     (case extendPageData opts pg (errorsByPath s) of
        (Normal, errs) \<Rightarrow> s\<lparr>errorsByPath := errs\<rparr>
      | (Threw e, errs) \<Rightarrow> s\<lparr>errorsByPath := errs, thrown := Some e\<rparr>)"
| "invoke opts WithHooks s Updated = updated s"
| "invoke opts WithHooks s Ready = ready opts s"

definition initial :: pstate where
  "initial = \<lparr>errorsByPath = [], effects = [], thrown = None\<rparr>"

definition run :: "options \<Rightarrow> call list \<Rightarrow> pstate" where
  "run opts calls = foldl (invoke opts (pluginInit opts)) initial calls"

section \<open>Specification-level notions\<close>

text \<open>The violations recorded for a path, in the order of their detection.\<close>

definition emitted :: "collector \<Rightarrow> string \<Rightarrow> violation list" where
  "emitted errors path = (case map_of errors path of Some es \<Rightarrow> es | None \<Rightarrow> [])"

definition addErrors :: "collector \<Rightarrow> string \<Rightarrow> violation list \<Rightarrow> collector" where
  "addErrors errors path vs = foldl (\<lambda>errs v. addError errs path v) errors vs"

text \<open>The collector invariant: every path of the collector has at least one violation.\<close>

definition nonEmptyLists :: "collector \<Rightarrow> bool" where
  "nonEmptyLists errors = list_all (\<lambda>(p, es). es \<noteq> []) errors"

text \<open>
  The per-key steps 2a to 2e in the words of the specification: the violations one key
  of the metadata gives, or the exception the type matcher raises.
\<close>

definition keyViolations :: "specs_value \<Rightarrow> (string \<times> val) list \<Rightarrow> string \<Rightarrow> error + violation list" where
  "keyViolations sv fm key =
     (if key = [] then Inr [EMPTY_KEY]
      else (case lookupSpec sv key of
        None \<Rightarrow> Inr [INVALID_KEY key]
      | Some spec \<Rightarrow>
          (if valueAt fm key = Null \<or> valueAt fm key = Undefined then Inr [EMPTY_VALUE key]
           else (case assertType (valueAt fm key) (type spec) of
             Inl e \<Rightarrow> Inl e
           | Inr r \<Rightarrow>
               (if \<not> valid r
                then Inr [INVALID_TYPE key (expectedType r) (typeof (valueAt fm key))]
                else (case allowedValues spec of
                  None \<Rightarrow> Inr []
                | Some allowed \<Rightarrow>
                    (if list_ex (\<lambda>a. strictEq a (valueAt fm key)) allowed then Inr []
                     else Inr [INVALID_VALUE key allowed (valueAt fm key)])))))))"

fun perKeySweep :: "specs_value \<Rightarrow> (string \<times> val) list \<Rightarrow> string list \<Rightarrow> outcome \<times> violation list" where
  "perKeySweep sv fm [] = (Normal, [])"
| "perKeySweep sv fm (k # ks) =
     (case keyViolations sv fm k of
        Inl e \<Rightarrow> (Threw e, [])
      | Inr vs \<Rightarrow> (case perKeySweep sv fm ks of (out, ws) \<Rightarrow> (out, vs @ ws)))"

text \<open>The required-field sweep in the words of the specification.\<close>

definition missingKeys :: "specs_value \<Rightarrow> (string \<times> val) list \<Rightarrow> violation list" where
  "missingKeys sv fm =
     map MISSING_KEY (filter (\<lambda>f. f \<notin> set (map fst fm)) (requiredFields sv))"

text \<open>The metadata key a violation is about; \<open>EMPTY_KEY\<close> is about the empty key.\<close>

fun violationKey :: "violation \<Rightarrow> string" where
  "violationKey (MISSING_KEY k) = k"
| "violationKey EMPTY_KEY = []"
| "violationKey (INVALID_KEY k) = k"
| "violationKey (EMPTY_VALUE k) = k"
| "violationKey (INVALID_TYPE k expected got) = k"
| "violationKey (INVALID_VALUE k expected got) = k"

definition violationsOn :: "string \<Rightarrow> violation list \<Rightarrow> violation list" where
  "violationsOn k vs = filter (\<lambda>v. violationKey v = k) vs"

text \<open>
  A value passes a field spec when it is neither \<open>null\<close> nor \<open>undefined\<close>, the type matcher
  accepts it and it is one of the allowed values, where the spec has any.
\<close>

definition passes :: "fieldspec \<Rightarrow> val \<Rightarrow> bool" where
  "passes spec v =
     (v \<noteq> Null \<and> v \<noteq> Undefined
      \<and> (case assertType v (type spec) of Inl e \<Rightarrow> False | Inr r \<Rightarrow> valid r)
      \<and> (case allowedValues spec of None \<Rightarrow> True | Some allowed \<Rightarrow> assertAllowedValue v allowed))"

text \<open>Every required field of the schema is a key of the metadata and its value passes.\<close>

definition requiredConform :: "specs_value \<Rightarrow> (string \<times> val) list \<Rightarrow> bool" where
  "requiredConform sv fm =
     list_all (\<lambda>k. k \<in> set (map fst fm) \<and> (case lookupSpec sv k of
                                                None \<Rightarrow> False
                                              | Some spec \<Rightarrow> passes spec (valueAt fm k)))
       (requiredFields sv)"

text \<open>Every key of the metadata is a non-empty key of the schema and its value passes.\<close>

definition keysConform :: "specs_value \<Rightarrow> (string \<times> val) list \<Rightarrow> bool" where
  "keysConform sv fm =
     list_all (\<lambda>k. k \<noteq> [] \<and> (case lookupSpec sv k of
                                     None \<Rightarrow> False
                                   | Some spec \<Rightarrow> passes spec (valueAt fm k)))
       (map fst fm)"

text \<open>
  A constructor: a callable object whose \<open>prototype\<close> is an object and whose \<open>toString\<close>
  returns a string.
\<close>

fun isConstructor :: "val \<Rightarrow> bool" where
  "isConstructor (Object c ci cps) =
     (callable ci \<and> prototypeProp ci \<noteq> None \<and> toStringResult ci \<noteq> None)"
| "isConstructor _ = False"

text \<open>Deep equality: equality of structure, whatever the identities of the objects.\<close>

primrec erase :: "val \<Rightarrow> val" where
  "erase Undefined = Undefined"
| "erase Null = Null"
| "erase (Boolean b) = Boolean b"
| "erase (Number n) = Number n"
| "erase (String s) = String s"
| "erase (Symbol r d) = Symbol r d"
| "erase (Object r i ps) = Object 0 i (map (map_prod id erase) ps)"

definition deepEqual :: "val \<Rightarrow> val \<Rightarrow> bool" where
  "deepEqual a b = (erase a = erase b)"

subsection \<open>Built-in objects and sample inputs\<close>

text \<open>
  The identities \<open>0\<close> to \<open>4\<close> are \<open>Object.prototype\<close>, \<open>Function.prototype\<close>,
  \<open>String.prototype\<close>, \<open>Number.prototype\<close> and \<open>Array.prototype\<close>.
\<close>

definition builtin :: "ref \<Rightarrow> string \<Rightarrow> ref \<Rightarrow> val" where
  "builtin r name proto =
     Object r \<lparr>callable = True,
               toStringResult = Some (''function '' @ name @ ''() { [native code] }''),
               prototypeProp = Some proto,
               protoChain = [1, 0]\<rparr> []"

definition jsString :: val where "jsString = builtin 10 ''String'' 2"

definition jsNumber :: val where "jsNumber = builtin 11 ''Number'' 3"

definition jsArray :: val where "jsArray = builtin 12 ''Array'' 4"

text \<open>The array \<open>['a']\<close>, allocated at identity \<open>r\<close>.\<close>

definition arrayA :: "ref \<Rightarrow> val" where
  "arrayA r =
     Object r \<lparr>callable = False, toStringResult = Some ''a'', prototypeProp = None,
               protoChain = [4, 0]\<rparr> [(''0'', String ''a'')]"

definition optionsWith :: "specs_value \<Rightarrow> options" where
  "optionsWith sv =
     \<lparr>specs = sv, exclude = (\<lambda>path. False), postProcessErrors = None,
      dumpToFile = False, abortBuild = False\<rparr>"

definition titleSpecs :: specs_value where
  "titleSpecs =
     SMapping [(''title'', \<lparr>required = Boolean True, type = jsString, allowedValues = None\<rparr>)]"

text \<open>A class: its source text starts with \<open>class\<close>, so \<open>getType\<close> finds no name in it.\<close>

definition classFoo :: val where
  "classFoo =
     Object 20 \<lparr>callable = True, toStringResult = Some ''class Foo {}'',
                prototypeProp = Some 21, protoChain = [1, 0]\<rparr> []"

definition countSpecs :: specs_value where
  "countSpecs =
     SMapping [(''count'', \<lparr>required = Boolean False, type = jsNumber,
                               allowedValues = Some [Number (Finite 1), Number (Finite 2)]\<rparr>)]"

definition tagsSpecs :: specs_value where
  "tagsSpecs =
     SMapping [(''tags'', \<lparr>required = Boolean False, type = jsArray,
                              allowedValues = Some [arrayA 100]\<rparr>)]"

definition excludingX :: options where
  "excludingX = (optionsWith titleSpecs)\<lparr>exclude := (\<lambda>path. path = ''/x.md'')\<rparr>"

text \<open>
  A schema with a required field, an optional field and a field whose \<open>required\<close> is
  truthy without being \<open>true\<close>.
\<close>

definition mixedSpecs :: specs_value where
  "mixedSpecs =
     SMapping
       [(''title'', \<lparr>required = Boolean True, type = jsString, allowedValues = None\<rparr>),
        (''tag'', \<lparr>required = Boolean False, type = jsString, allowedValues = None\<rparr>),
        (''note'', \<lparr>required = String ''yes'', type = jsString, allowedValues = None\<rparr>)]"

section \<open>Basic facts\<close>

lemma typeof_undefined: "typeof v = ''undefined'' \<longleftrightarrow> v = Undefined"
  by (cases v) auto

lemma indexOf_ge: "indexOf xs v \<ge> - 1"
  by (induction xs) (auto simp: Let_def)

lemma indexOf_found: "indexOf xs v > - 1 \<longleftrightarrow> list_ex (\<lambda>a. strictEq a v) xs"
proof (induction xs)
  case Nil
  show ?case by simp
next
  case (Cons x xs)
  then show ?case using indexOf_ge [of xs v] by (auto simp: Let_def)
qed

lemma assertAllowedValue_iff: "assertAllowedValue v allowed \<longleftrightarrow> (\<exists>a \<in> set allowed. strictEq a v)"
  by (simp add: assertAllowedValue_def indexOf_found list_ex_iff)

lemma assertType_expected: "assertType v t = Inr r \<Longrightarrow> getType t = Inr (expectedType r)"
  by (auto simp: assertType_def Let_def split: sum.splits if_splits)

lemma addErrors_Nil [simp]: "addErrors errors path [] = errors"
  by (simp add: addErrors_def)

lemma addErrors_single [simp]: "addErrors errors path [v] = addError errors path v"
  by (simp add: addErrors_def)

lemma addErrors_append: "addErrors errors path (vs @ ws) = addErrors (addErrors errors path vs) path ws"
  by (simp add: addErrors_def)

lemma addErrors_Cons: "addErrors errors path (v # vs) = addErrors (addError errors path v) path vs"
  by (simp add: addErrors_def)

lemma checkKey_keyViolations:
  "checkKey sv path fm key errors =
     (case keyViolations sv fm key of
        Inl e \<Rightarrow> (Threw e, errors)
      | Inr vs \<Rightarrow> (Normal, addErrors errors path vs))"
  by (auto simp: checkKey_def keyViolations_def Let_def typeof_undefined assertType_expected
        assertAllowedValue_def indexOf_found
      split: option.splits sum.splits)

lemma forEach_checkKey:
  "forEach (checkKey sv path fm) ks errors =
     (fst (perKeySweep sv fm ks), addErrors errors path (snd (perKeySweep sv fm ks)))"
  by (induction ks arbitrary: errors)
     (auto simp: checkKey_keyViolations addErrors_append split: sum.splits prod.splits outcome.splits)

lemma forEach_checkRequired:
  "forEach (checkRequired path fm) fs errors =
     (Normal, addErrors errors path (map MISSING_KEY (filter (\<lambda>f. f \<notin> set (map fst fm)) fs)))"
  by (induction fs arbitrary: errors) (auto simp: checkRequired_def addErrors_Cons)

lemma extendPageData_addErrors:
  "\<not> exclude opts (regularPath pg) \<Longrightarrow>
   extendPageData opts pg errors =
     (fst (perKeySweep (specs opts) (frontmatter pg) (map fst (frontmatter pg))),
      addErrors errors (regularPath pg)
        (missingKeys (specs opts) (frontmatter pg)
         @ snd (perKeySweep (specs opts) (frontmatter pg) (map fst (frontmatter pg)))))"
  by (simp add: extendPageData_def forEach_checkRequired forEach_checkKey missingKeys_def addErrors_append)

lemma map_of_push:
  "map_of (push path e errors) q =
     (if q = path then map_option (\<lambda>es. es @ [e]) (map_of errors path) else map_of errors q)"
  by (induction errors) auto

lemma map_of_addError_same:
  "map_of (addError errors path e) path = Some (emitted errors path @ [e])"
  by (auto simp: addError_def map_of_push emitted_def map_add_def split: option.splits)

lemma map_of_addError_other:
  "q \<noteq> path \<Longrightarrow> map_of (addError errors path e) q = map_of errors q"
  by (auto simp: addError_def map_of_push map_add_def split: option.splits)

lemma emitted_addError_same: "emitted (addError errors path e) path = emitted errors path @ [e]"
  by (simp add: emitted_def map_of_addError_same)

lemma emitted_addErrors: "emitted (addErrors errors path vs) path = emitted errors path @ vs"
  by (induction vs arbitrary: errors) (auto simp: addErrors_Cons emitted_addError_same)

lemma map_of_addErrors_other:
  "q \<noteq> path \<Longrightarrow> map_of (addErrors errors path vs) q = map_of errors q"
  by (induction vs arbitrary: errors) (auto simp: addErrors_Cons map_of_addError_other)

lemma push_absent:
  "map_of errors path = None \<Longrightarrow> push path e (errors @ rest) = errors @ push path e rest"
  by (induction errors) (auto split: if_splits)

lemma addError_absent:
  "map_of errors path = None \<Longrightarrow> addError errors path e = errors @ [(path, [e])]"
  by (simp add: addError_def push_absent)

lemma nonEmptyLists_push: "nonEmptyLists errors \<Longrightarrow> nonEmptyLists (push path e errors)"
  by (induction errors) (auto simp: nonEmptyLists_def)

lemma nonEmptyLists_addError: "nonEmptyLists errors \<Longrightarrow> nonEmptyLists (addError errors path e)"
proof (cases "map_of errors path")
  case None
  assume "nonEmptyLists errors"
  with None show ?thesis by (simp add: addError_absent nonEmptyLists_def)
next
  case (Some es)
  assume "nonEmptyLists errors"
  with Some show ?thesis by (simp add: addError_def nonEmptyLists_push)
qed

lemma nonEmptyLists_addErrors: "nonEmptyLists errors \<Longrightarrow> nonEmptyLists (addErrors errors path vs)"
  by (induction vs arbitrary: errors) (auto simp: addErrors_Cons nonEmptyLists_addError)

lemma snd_extendPageData:
  "snd (extendPageData opts pg errors) =
     (if exclude opts (regularPath pg) then errors
      else addErrors errors (regularPath pg)
        (missingKeys (specs opts) (frontmatter pg)
         @ snd (perKeySweep (specs opts) (frontmatter pg) (map fst (frontmatter pg)))))"
  by (simp add: extendPageData_addErrors) (simp add: extendPageData_def)

lemma keyViolations_keys:
  "keyViolations sv fm k = Inr vs \<Longrightarrow> length vs \<le> 1 \<and> violationsOn k vs = vs"
  by (auto simp: keyViolations_def violationsOn_def split: if_splits option.splits sum.splits)

lemma keyViolations_other:
  "keyViolations sv fm k' = Inr vs \<Longrightarrow> k' \<noteq> k \<Longrightarrow> violationsOn k vs = []"
  by (auto simp: keyViolations_def violationsOn_def split: if_splits option.splits sum.splits)

lemma violationsOn_append: "violationsOn k (vs @ ws) = violationsOn k vs @ violationsOn k ws"
  by (simp add: violationsOn_def)

lemma perKeySweep_other:
  "k \<notin> set ks \<Longrightarrow> violationsOn k (snd (perKeySweep sv fm ks)) = []"
proof (induction ks)
  case Nil
  show ?case by (simp add: violationsOn_def)
next
  case (Cons a ks)
  then show ?case
    by (auto simp: violationsOn_append keyViolations_other violationsOn_def [of k "[]"]
          split: sum.splits prod.splits)
qed

lemma perKeySweep_one:
  "distinct ks \<Longrightarrow> length (violationsOn k (snd (perKeySweep sv fm ks))) \<le> 1"
proof (induction ks)
  case Nil
  show ?case by (simp add: violationsOn_def)
next
  case (Cons a ks)
  show ?case
  proof (cases "keyViolations sv fm a")
    case (Inl e)
    then show ?thesis by (simp add: violationsOn_def)
  next
    case (Inr vs)
    obtain out ws where sw: "perKeySweep sv fm ks = (out, ws)" by (cases "perKeySweep sv fm ks")
    show ?thesis
    proof (cases "a = k")
      case True
      with Cons.prems have "k \<notin> set ks" by simp
      from perKeySweep_other [OF this, of sv fm] sw have "violationsOn k ws = []" by simp
      with Inr sw keyViolations_keys [OF Inr] show ?thesis by (simp add: violationsOn_append True)
    next
      case False
      from Cons.IH Cons.prems sw have "length (violationsOn k ws) \<le> 1" by simp
      with Inr sw keyViolations_other [OF Inr False] show ?thesis by (simp add: violationsOn_append)
    qed
  qed
qed

lemma perKeySweep_key:
  "distinct ks \<Longrightarrow> fst (perKeySweep sv fm ks) = Normal \<Longrightarrow> k \<in> set ks \<Longrightarrow>
   keyViolations sv fm k = Inr (violationsOn k (snd (perKeySweep sv fm ks)))"
proof (induction ks)
  case Nil
  then show ?case by simp
next
  case (Cons a ks)
  obtain out ws where sw: "perKeySweep sv fm ks = (out, ws)" by (cases "perKeySweep sv fm ks")
  from Cons.prems(2) obtain vs where vs: "keyViolations sv fm a = Inr vs"
    by (cases "keyViolations sv fm a") auto
  from Cons.prems(2) vs sw have out: "out = Normal" by simp
  show ?case
  proof (cases "a = k")
    case True
    with Cons.prems have "k \<notin> set ks" by simp
    from perKeySweep_other [OF this, of sv fm] sw have "violationsOn k ws = []" by simp
    with vs sw keyViolations_keys [OF vs] show ?thesis by (simp add: violationsOn_append True)
  next
    case False
    with Cons.prems have "k \<in> set ks" by simp
    with Cons.IH Cons.prems sw out have "keyViolations sv fm k = Inr (violationsOn k ws)" by simp
    with vs sw keyViolations_other [OF vs False] show ?thesis by (simp add: violationsOn_append)
  qed
qed

subsection \<open>The hooks over a run\<close>

lemma errorsByPath_invoke_extend:
  "errorsByPath (invoke opts WithHooks s (ExtendPageData pg)) =
     snd (extendPageData opts pg (errorsByPath s))"
  by (simp split: prod.splits outcome.splits)

lemma errorsByPath_ready: "errorsByPath (ready opts s) = []"
  by (simp add: ready_def Let_def)

lemma errorsByPath_updated: "errorsByPath (updated s) = errorsByPath s"
  by (simp add: updated_def)

lemma foldl_preserves:
  "(\<And>s c. P s \<Longrightarrow> P (f s c)) \<Longrightarrow> P s \<Longrightarrow> P (foldl f s cs)"
  by (induction cs arbitrary: s) auto

lemma foldl_NameOnly: "foldl (invoke opts (NameOnly m)) s calls = s"
  by (induction calls) auto

lemma invoke_nonEmptyLists:
  "nonEmptyLists (errorsByPath s) \<Longrightarrow> nonEmptyLists (errorsByPath (invoke opts pl s c))"
proof (cases pl)
  case (NameOnly m)
  assume "nonEmptyLists (errorsByPath s)"
  with NameOnly show ?thesis by simp
next
  case WithHooks
  assume inv: "nonEmptyLists (errorsByPath s)"
  show ?thesis
  proof (cases c)
    case (ExtendPageData pg)
    with WithHooks inv show ?thesis
      by (simp only: errorsByPath_invoke_extend snd_extendPageData nonEmptyLists_addErrors
            if_split) simp
  next
    case Updated
    with WithHooks inv show ?thesis by (simp add: errorsByPath_updated)
  next
    case Ready
    with WithHooks show ?thesis by (simp add: errorsByPath_ready nonEmptyLists_def)
  qed
qed

lemma invoke_excluded:
  assumes "exclude opts p" and "map_of (errorsByPath s) p = None"
  shows "map_of (errorsByPath (invoke opts pl s c)) p = None"
proof (cases pl)
  case (NameOnly m)
  with assms show ?thesis by simp
next
  case WithHooks
  show ?thesis
  proof (cases c)
    case (ExtendPageData pg)
    show ?thesis
    proof (cases "regularPath pg = p")
      case True
      with assms WithHooks ExtendPageData show ?thesis
        by (simp only: errorsByPath_invoke_extend snd_extendPageData) simp
    next
      case False
      then have "p \<noteq> regularPath pg" by auto
      with assms WithHooks ExtendPageData show ?thesis
        by (simp only: errorsByPath_invoke_extend snd_extendPageData)
           (simp add: map_of_addErrors_other)
    qed
  next
    case Updated
    with WithHooks assms show ?thesis by (simp add: errorsByPath_updated)
  next
    case Ready
    with WithHooks show ?thesis by (simp add: errorsByPath_ready)
  qed
qed

subsection \<open>Conforming records, constructors and identity\<close>

lemma passes_keyViolations:
  "k \<noteq> [] \<Longrightarrow> lookupSpec sv k = Some spec \<Longrightarrow> passes spec (valueAt fm k) \<Longrightarrow>
   keyViolations sv fm k = Inr []"
  by (auto simp: keyViolations_def passes_def assertAllowedValue_def indexOf_found
        split: sum.splits option.splits)

lemma keysConform_sweep:
  "list_all (\<lambda>k. k \<noteq> [] \<and> (case lookupSpec sv k of
                                 None \<Rightarrow> False
                               | Some spec \<Rightarrow> passes spec (valueAt fm k))) ks \<Longrightarrow>
   perKeySweep sv fm ks = (Normal, [])"
  by (induction ks) (auto simp: passes_keyViolations split: option.splits)

lemma requiredConform_missingKeys: "requiredConform sv fm \<Longrightarrow> missingKeys sv fm = []"
  by (auto simp: requiredConform_def missingKeys_def list_all_iff filter_empty_conv)

lemma assertType_Hi: "assertType (String ''Hi'') jsString = Inr \<lparr>valid = True, expectedType = ''String''\<rparr>"
  by code_simp

lemma instanceof_constructor: "isConstructor t \<Longrightarrow> \<exists>b. instanceof v t = Inr b"
  by (cases t; cases v) auto

lemma getType_constructor: "isConstructor t \<Longrightarrow> \<exists>name. getType t = Inr name"
  by (cases t) (auto simp: getType_def)

lemma emitted_forEach_checkKey:
  "emitted (snd (forEach (checkKey sv path fm) ks [])) path = snd (perKeySweep sv fm ks)"
  by (simp add: forEach_checkKey emitted_addErrors) (simp add: emitted_def)

lemma fst_forEach_checkKey:
  "fst (forEach (checkKey sv path fm) ks errors) = fst (perKeySweep sv fm ks)"
  by (simp add: forEach_checkKey)

lemma keyViolations_invalid_type:
  "key \<noteq> [] \<Longrightarrow> lookupSpec sv key = Some spec \<Longrightarrow> valueAt fm key \<noteq> Null \<Longrightarrow>
   valueAt fm key \<noteq> Undefined \<Longrightarrow> assertType (valueAt fm key) (type spec) = Inr r \<Longrightarrow>
   \<not> valid r \<Longrightarrow>
   keyViolations sv fm key = Inr [INVALID_TYPE key (expectedType r) (typeof (valueAt fm key))]"
  by (simp add: keyViolations_def)

lemma strictEq_Object:
  "strictEq a (Object r i ps) \<longleftrightarrow> (\<exists>i' ps'. a = Object r i' ps')"
  by (cases a) auto

subsection \<open>The required fields\<close>

lemma strictEq_True: "strictEq v (Boolean True) \<longleftrightarrow> v = Boolean True"
  by (cases v) auto

lemma absent_requiredFields:
  "filter (\<lambda>f. f \<notin> K) (requiredFields sv) =
     map fst (filter (\<lambda>(k, s). required s = Boolean True \<and> k \<notin> K) (entries sv))"
  by (induction "entries sv" arbitrary: sv)
     (auto simp: requiredFields_def strictEq_True filter_map o_def case_prod_unfold
        intro: filter_cong)

section \<open>Evaluation on concrete inputs\<close>

lemmas run_defs =
  extendPageData_def checkKey_def checkRequired_def lookupSpec_def entries_def
  requiredFields_def addError_def valueAt_def optionsWith_def titleSpecs_def
  keyViolations_def missingKeys_def addErrors_def emitted_def

lemmas type_defs =
  assertType_def getType_def simpleCheckRE_def toLowerCase_def matchFunctionName_def
  isSpace_def isWord_def

section \<open>The claims\<close>

text \<open>
  Claim C1. One run of the per-key callback records at most one violation. The checks
  come in the order \<open>EMPTY_KEY\<close>, \<open>INVALID_KEY\<close>, \<open>EMPTY_VALUE\<close>, \<open>INVALID_TYPE\<close>,
  \<open>INVALID_VALUE\<close> and the callback returns at the first that triggers, so over the whole
  per-key sweep of a frontmatter (whose keys are distinct) at most one violation is about
  any one key. When the type matcher answers invalid for a key, the callback records
  exactly the \<open>INVALID_TYPE\<close> violation, whatever \<open>allowedValues\<close> the spec has, and in a
  sweep that completes it is the only violation about that key.
\<close>

theorem checkKey_first_failing_check_only:
  assumes "distinct (map fst fm)"
  shows
  "(\<exists>vs. length vs \<le> 1 \<and> snd (checkKey sv path fm key errors) = addErrors errors path vs)
   \<and> length (violationsOn k (emitted (snd (forEach (checkKey sv path fm) (map fst fm) [])) path)) \<le> 1
   \<and> (key = [] \<longrightarrow> checkKey sv path fm key errors = (Normal, addError errors path EMPTY_KEY))
   \<and> (key \<noteq> [] \<and> lookupSpec sv key = None \<longrightarrow>
        checkKey sv path fm key errors = (Normal, addError errors path (INVALID_KEY key)))
   \<and> (key \<noteq> [] \<and> lookupSpec sv key = Some spec
        \<and> (valueAt fm key = Null \<or> valueAt fm key = Undefined) \<longrightarrow>
        checkKey sv path fm key errors = (Normal, addError errors path (EMPTY_VALUE key)))
   \<and> (key \<noteq> [] \<and> lookupSpec sv key = Some spec
        \<and> valueAt fm key \<noteq> Null \<and> valueAt fm key \<noteq> Undefined
        \<and> assertType (valueAt fm key) (type spec) = Inr r \<and> \<not> valid r \<longrightarrow>
        checkKey sv path fm key errors =
          (Normal, addError errors path
             (INVALID_TYPE key (expectedType r) (typeof (valueAt fm key))))
        \<and> (key \<in> set (map fst fm)
             \<and> fst (forEach (checkKey sv path fm) (map fst fm) []) = Normal \<longrightarrow>
             violationsOn key (emitted (snd (forEach (checkKey sv path fm) (map fst fm) [])) path)
               = [INVALID_TYPE key (expectedType r) (typeof (valueAt fm key))]))
   \<and> (key \<noteq> [] \<and> lookupSpec sv key = Some spec
        \<and> valueAt fm key \<noteq> Null \<and> valueAt fm key \<noteq> Undefined
        \<and> assertType (valueAt fm key) (type spec) = Inr r \<and> valid r \<longrightarrow>
        checkKey sv path fm key errors =
          (Normal, case allowedValues spec of
                     None \<Rightarrow> errors
                   | Some allowed \<Rightarrow>
                       if assertAllowedValue (valueAt fm key) allowed then errors
                       else addError errors path (INVALID_VALUE key allowed (valueAt fm key))))"
proof (intro conjI impI)
  show "\<exists>vs. length vs \<le> 1 \<and> snd (checkKey sv path fm key errors) = addErrors errors path vs"
  proof (cases "keyViolations sv fm key")
    case (Inl e)
    then have "snd (checkKey sv path fm key errors) = addErrors errors path []"
      by (simp add: checkKey_keyViolations)
    then show ?thesis by (intro exI [of _ "[]"]) simp
  next
    case (Inr vs)
    then have "snd (checkKey sv path fm key errors) = addErrors errors path vs"
      by (simp add: checkKey_keyViolations)
    with keyViolations_keys [OF Inr] show ?thesis by blast
  qed
next
  from perKeySweep_one [OF assms, of k sv fm] show
    "length (violationsOn k (emitted (snd (forEach (checkKey sv path fm) (map fst fm) [])) path)) \<le> 1"
    by (simp add: emitted_forEach_checkKey)
next
  assume "key = []"
  then show "checkKey sv path fm key errors = (Normal, addError errors path EMPTY_KEY)"
    by (simp add: checkKey_def)
next
  assume "key \<noteq> [] \<and> lookupSpec sv key = None"
  then show "checkKey sv path fm key errors = (Normal, addError errors path (INVALID_KEY key))"
    by (simp add: checkKey_def)
next
  assume "key \<noteq> [] \<and> lookupSpec sv key = Some spec
        \<and> (valueAt fm key = Null \<or> valueAt fm key = Undefined)"
  then show "checkKey sv path fm key errors = (Normal, addError errors path (EMPTY_VALUE key))"
    by (auto simp: checkKey_def)
next
  assume a: "key \<noteq> [] \<and> lookupSpec sv key = Some spec
        \<and> valueAt fm key \<noteq> Null \<and> valueAt fm key \<noteq> Undefined
        \<and> assertType (valueAt fm key) (type spec) = Inr r \<and> \<not> valid r"
  then have kv: "keyViolations sv fm key
      = Inr [INVALID_TYPE key (expectedType r) (typeof (valueAt fm key))]"
    by (simp add: keyViolations_invalid_type)
  then show "checkKey sv path fm key errors =
          (Normal, addError errors path
             (INVALID_TYPE key (expectedType r) (typeof (valueAt fm key))))"
    by (simp add: checkKey_keyViolations)
  assume "key \<in> set (map fst fm)
             \<and> fst (forEach (checkKey sv path fm) (map fst fm) []) = Normal"
  then have "key \<in> set (map fst fm)" and "fst (perKeySweep sv fm (map fst fm)) = Normal"
    by (simp_all add: fst_forEach_checkKey)
  from perKeySweep_key [OF assms this(2) this(1)] kv
  show "violationsOn key (emitted (snd (forEach (checkKey sv path fm) (map fst fm) [])) path)
               = [INVALID_TYPE key (expectedType r) (typeof (valueAt fm key))]"
    by (simp add: emitted_forEach_checkKey)
next
  assume "key \<noteq> [] \<and> lookupSpec sv key = Some spec
        \<and> valueAt fm key \<noteq> Null \<and> valueAt fm key \<noteq> Undefined
        \<and> assertType (valueAt fm key) (type spec) = Inr r \<and> valid r"
  then show "checkKey sv path fm key errors =
          (Normal, case allowedValues spec of
                     None \<Rightarrow> errors
                   | Some allowed \<Rightarrow>
                       if assertAllowedValue (valueAt fm key) allowed then errors
                       else addError errors path (INVALID_VALUE key allowed (valueAt fm key)))"
    by (auto simp: checkKey_def typeof_undefined split: option.splits)
qed

theorem checkKey_first_failing_check_only_witness:
  "distinct (map fst [(''count'', String ''5'')])
   \<and> checkKey countSpecs ''/c.md'' [(''count'', String ''5'')] ''count'' []
       = (Normal, [(''/c.md'', [INVALID_TYPE ''count'' ''Number'' ''string''])])
   \<and> violationsOn ''count''
        (emitted (snd (forEach (checkKey countSpecs ''/c.md'' [(''count'', String ''5'')])
                         (map fst [(''count'', String ''5'')]) [])) ''/c.md'')
       = [INVALID_TYPE ''count'' ''Number'' ''string'']"
proof -
  let ?fm = "[(''count'', String ''5'')]"
  let ?spec = "\<lparr>required = Boolean False, type = jsNumber,
                allowedValues = Some [Number (Finite 1), Number (Finite 2)]\<rparr>"
  let ?r = "\<lparr>valid = False, expectedType = ''Number''\<rparr>"
  have d: "distinct (map fst ?fm)" by simp
  have hyp: "''count'' \<noteq> [] \<and> lookupSpec countSpecs ''count'' = Some ?spec
      \<and> valueAt ?fm ''count'' \<noteq> Null \<and> valueAt ?fm ''count'' \<noteq> Undefined
      \<and> assertType (valueAt ?fm ''count'') (type ?spec) = Inr ?r \<and> \<not> valid ?r"
    by code_simp
  have n: "''count'' \<in> set (map fst ?fm)
      \<and> fst (forEach (checkKey countSpecs ''/c.md'' ?fm) (map fst ?fm) []) = Normal"
    by code_simp
  from checkKey_first_failing_check_only
         [where fm = ?fm and sv = countSpecs and path = "''/c.md''" and key = "''count''"
            and errors = "[]" and k = "''count''" and spec = ?spec and r = ?r, OF d]
       hyp n
  have step: "checkKey countSpecs ''/c.md'' ?fm ''count'' [] =
          (Normal, addError [] ''/c.md''
             (INVALID_TYPE ''count'' (expectedType ?r) (typeof (valueAt ?fm ''count''))))
        \<and> violationsOn ''count''
             (emitted (snd (forEach (checkKey countSpecs ''/c.md'' ?fm) (map fst ?fm) [])) ''/c.md'')
            = [INVALID_TYPE ''count'' (expectedType ?r) (typeof (valueAt ?fm ''count''))]"
    by blast
  have e1: "INVALID_TYPE ''count'' (expectedType ?r) (typeof (valueAt ?fm ''count''))
      = INVALID_TYPE ''count'' ''Number'' ''string''"
    by code_simp
  have e2: "addError [] ''/c.md'' (INVALID_TYPE ''count'' ''Number'' ''string'')
      = [(''/c.md'', [INVALID_TYPE ''count'' ''Number'' ''string''])]"
    by code_simp
  from d step [unfolded e1 e2] show ?thesis by blast
qed

text \<open>
  Claim C2, as the code has it. When \<open>getType\<close> finds no name (the empty string), the
  primitive path is not taken and \<open>assertType\<close> is the \<open>instanceof\<close> check alone. For a type
  that is a constructor (a callable whose \<open>prototype\<close> is an object and whose \<open>toString\<close>
  returns a string) \<open>assertType\<close> raises nothing for any value, and with an empty name it
  answers invalid for every value that is no instance of the type.
\<close>

theorem assertType_total_on_constructors:
  "(getType t = Inr [] \<longrightarrow>
      assertType v t =
        (case instanceof v t of
           Inl e \<Rightarrow> Inl e
         | Inr b \<Rightarrow> Inr \<lparr>valid = b, expectedType = []\<rparr>))
   \<and> (isConstructor t \<longrightarrow>
        (\<exists>r. assertType v t = Inr r)
        \<and> (getType t = Inr [] \<longrightarrow>
             (\<exists>b. instanceof v t = Inr b \<and> assertType v t = Inr \<lparr>valid = b, expectedType = []\<rparr>)))"
proof (intro conjI impI)
  assume "getType t = Inr []"
  then show "assertType v t =
        (case instanceof v t of
           Inl e \<Rightarrow> Inl e
         | Inr b \<Rightarrow> Inr \<lparr>valid = b, expectedType = []\<rparr>)"
    by (simp add: assertType_def simpleCheckRE_def)
next
  assume c: "isConstructor t"
  from instanceof_constructor [OF c] obtain b where "instanceof v t = Inr b" by blast
  moreover from getType_constructor [OF c] obtain name where "getType t = Inr name" by blast
  ultimately show "\<exists>r. assertType v t = Inr r"
    by (simp add: assertType_def Let_def)
next
  assume c: "isConstructor t" and g: "getType t = Inr []"
  from instanceof_constructor [OF c] obtain b where "instanceof v t = Inr b" by blast
  with g show "\<exists>b. instanceof v t = Inr b \<and> assertType v t = Inr \<lparr>valid = b, expectedType = []\<rparr>"
    by (simp add: assertType_def simpleCheckRE_def)
qed

theorem assertType_total_on_constructors_witness:
  "getType classFoo = Inr [] \<and> isConstructor classFoo
   \<and> instanceof (String ''Hi'') classFoo = Inr False
   \<and> assertType (String ''Hi'') classFoo = Inr \<lparr>valid = False, expectedType = []\<rparr>"
  using assertType_total_on_constructors [of classFoo "String ''Hi''"]
  by (simp add: classFoo_def type_defs)

theorem assertType_raises_counterexample:
  "getType Undefined = Inr [] \<and> assertType (String ''Hi'') Undefined = Inl TypeError"
  by (simp add: type_defs)

text \<open>
  Claim C3, as the code has it. Specs that are falsy or whose \<open>typeof\<close> is not \<open>object\<close>
  (a function, a string, a number, a boolean, a symbol, \<open>undefined\<close>, \<open>null\<close>) are turned
  down before any page is processed: the plugin logs one message and has no hook, so no
  page is validated and nothing is recorded. For truthy specs the message names the
  \<open>typeof\<close> of the specs; falsy specs are reported as missing. An array is an object for
  \<open>typeof\<close>: it is accepted as a schema, and pages are validated against it.
\<close>

theorem non_object_specs_rejected:
  "\<not> truthySpecs (specs opts) \<or> typeofSpecs (specs opts) \<noteq> ''object'' \<Longrightarrow>
   (\<exists>m. pluginInit opts = NameOnly m)
   \<and> run opts calls = initial
   \<and> (truthySpecs (specs opts) \<longrightarrow>
        pluginInit opts = NameOnly (InvalidSpecsType (typeofSpecs (specs opts))))"
  by (auto simp: pluginInit_def run_def foldl_NameOnly)

theorem non_object_specs_rejected_witness:
  "truthySpecs (specs (optionsWith SFunction))
   \<and> typeofSpecs (specs (optionsWith SFunction)) \<noteq> ''object''
   \<and> pluginInit (optionsWith SFunction) = NameOnly (InvalidSpecsType ''function'')
   \<and> run (optionsWith SFunction)
        [ExtendPageData \<lparr>regularPath = ''/a.md'', frontmatter = [(''x'', Null)]\<rparr>, Updated, Ready]
      = \<lparr>errorsByPath = [], effects = [], thrown = None\<rparr>"
proof -
  have t: "truthySpecs (specs (optionsWith SFunction))" by (simp add: optionsWith_def)
  have o: "typeofSpecs (specs (optionsWith SFunction)) \<noteq> ''object''"
    by (simp add: optionsWith_def)
  from o have "\<not> truthySpecs (specs (optionsWith SFunction))
      \<or> typeofSpecs (specs (optionsWith SFunction)) \<noteq> ''object''" ..
  from non_object_specs_rejected [OF this] t
  have "pluginInit (optionsWith SFunction)
          = NameOnly (InvalidSpecsType (typeofSpecs (specs (optionsWith SFunction))))"
    and "\<And>calls. run (optionsWith SFunction) calls = initial"
    by blast+
  with t o show ?thesis by (simp add: optionsWith_def initial_def)
qed

theorem list_specs_accepted_counterexample:
  "pluginInit (optionsWith (SList [])) = WithHooks
   \<and> run (optionsWith (SList []))
       [ExtendPageData \<lparr>regularPath = ''/a.md'', frontmatter = [(''title'', String ''Hi'')]\<rparr>]
     = \<lparr>errorsByPath = [(''/a.md'', [INVALID_KEY ''title''])], effects = [], thrown = None\<rparr>"
  by (simp add: run_def pluginInit_def initial_def run_defs)

text \<open>
  Claim C4, as the code has it. When every required field of the schema is a key of the
  frontmatter whose value passes its field spec, and moreover every key of the frontmatter
  is a non-empty key of the schema whose value passes its field spec, \<open>extendPageData\<close>
  records no violation for the page.
\<close>

theorem conforming_record_has_no_violation:
  "requiredConform (specs opts) (frontmatter pg) \<Longrightarrow>
   keysConform (specs opts) (frontmatter pg) \<Longrightarrow>
   extendPageData opts pg errors = (Normal, errors)"
proof (cases "exclude opts (regularPath pg)")
  case True
  then show ?thesis by (simp add: extendPageData_def)
next
  case False
  assume "requiredConform (specs opts) (frontmatter pg)"
    and "keysConform (specs opts) (frontmatter pg)"
  then have "missingKeys (specs opts) (frontmatter pg) = []"
    and "perKeySweep (specs opts) (frontmatter pg) (map fst (frontmatter pg)) = (Normal, [])"
    by (simp_all add: requiredConform_missingKeys keysConform_sweep keysConform_def)
  with False show ?thesis by (simp add: extendPageData_addErrors)
qed

theorem conforming_record_has_no_violation_witness:
  "requiredConform (specs (optionsWith titleSpecs)) [(''title'', String ''Hi'')]
   \<and> keysConform (specs (optionsWith titleSpecs)) [(''title'', String ''Hi'')]
   \<and> extendPageData (optionsWith titleSpecs)
        \<lparr>regularPath = ''/d.md'', frontmatter = [(''title'', String ''Hi'')]\<rparr> []
      = (Normal, [])"
  using conforming_record_has_no_violation
    [of "optionsWith titleSpecs"
        "\<lparr>regularPath = ''/d.md'', frontmatter = [(''title'', String ''Hi'')]\<rparr>" "[]"]
  by (simp add: requiredConform_def keysConform_def passes_def assertType_Hi
        optionsWith_def titleSpecs_def lookupSpec_def entries_def requiredFields_def valueAt_def)

theorem undeclared_key_counterexample:
  "requiredConform titleSpecs [(''title'', String ''Hi''), (''extra'', Number (Finite 1))]
   \<and> extendPageData (optionsWith titleSpecs)
        \<lparr>regularPath = ''/d.md'',
         frontmatter = [(''title'', String ''Hi''), (''extra'', Number (Finite 1))]\<rparr> []
      = (Normal, [(''/d.md'', [INVALID_KEY ''extra''])])"
  by (simp add: requiredConform_def passes_def assertType_Hi run_defs)

text \<open>
  Claim C5. For a page that is not excluded, the violations \<open>extendPageData\<close> records
  under the path of the page are the \<open>MISSING_KEY\<close> violations of the required-field
  sweep followed by the violations of the per-key sweep in the key order of the
  frontmatter. The required-field sweep gives one \<open>MISSING_KEY\<close> for each entry of the
  schema whose \<open>required\<close> is \<open>true\<close> and whose name is no key of the frontmatter, in schema
  order, and none for any other field. It runs in full whatever the per-key sweep does,
  also when the type matcher raises there.
\<close>

theorem extendPageData_required_then_per_key:
  "\<not> exclude opts (regularPath pg) \<Longrightarrow>
   extendPageData opts pg errors =
     (fst (perKeySweep (specs opts) (frontmatter pg) (map fst (frontmatter pg))),
      addErrors errors (regularPath pg)
        (map (MISSING_KEY \<circ> fst)
           (filter (\<lambda>(k, s). required s = Boolean True \<and> k \<notin> set (map fst (frontmatter pg)))
              (entries (specs opts)))
         @ snd (perKeySweep (specs opts) (frontmatter pg) (map fst (frontmatter pg)))))
   \<and> emitted (snd (extendPageData opts pg errors)) (regularPath pg) =
       emitted errors (regularPath pg)
         @ map (MISSING_KEY \<circ> fst)
             (filter (\<lambda>(k, s). required s = Boolean True \<and> k \<notin> set (map fst (frontmatter pg)))
                (entries (specs opts)))
         @ snd (perKeySweep (specs opts) (frontmatter pg) (map fst (frontmatter pg)))
   \<and> (\<forall>es. specs opts = SMapping es \<longrightarrow> entries (specs opts) = es)"
  by (simp add: extendPageData_addErrors emitted_addErrors missingKeys_def absent_requiredFields
        entries_def)

theorem extendPageData_required_then_per_key_witness:
  "\<not> exclude (optionsWith mixedSpecs) ''/a.md''
   \<and> extendPageData (optionsWith mixedSpecs)
       \<lparr>regularPath = ''/a.md'', frontmatter = [(''extra'', Number (Finite 1))]\<rparr> []
     = (Normal, [(''/a.md'', [MISSING_KEY ''title'', INVALID_KEY ''extra''])])"
proof -
  let ?opts = "optionsWith mixedSpecs"
  let ?pg = "\<lparr>regularPath = ''/a.md'', frontmatter = [(''extra'', Number (Finite 1))]\<rparr>"
  have ne: "\<not> exclude ?opts (regularPath ?pg)" by (simp add: optionsWith_def)
  from extendPageData_required_then_per_key [OF ne, of "[]"]
  have "extendPageData ?opts ?pg [] =
     (fst (perKeySweep (specs ?opts) (frontmatter ?pg) (map fst (frontmatter ?pg))),
      addErrors [] (regularPath ?pg)
        (map (MISSING_KEY \<circ> fst)
           (filter (\<lambda>(k, s). required s = Boolean True \<and> k \<notin> set (map fst (frontmatter ?pg)))
              (entries (specs ?opts)))
         @ snd (perKeySweep (specs ?opts) (frontmatter ?pg) (map fst (frontmatter ?pg)))))"
    by blast
  also have "\<dots> = (Normal, [(''/a.md'', [MISSING_KEY ''title'', INVALID_KEY ''extra''])])"
    by code_simp
  finally show ?thesis using ne by simp
qed

text \<open>
  Claim C6 says that the collector is reset to empty after every report, the report of
  \<open>updated\<close> included, with no violation lost or duplicated. \<open>ready\<close> does so: it reports
  the whole collector and resets it. \<open>updated\<close> reports the collector and leaves it as it
  is: the reported violations stay, the next pass over the same page appends to them, and
  the next report shows them twice.
\<close>

theorem updated_keeps_reported_violations:
  "updated \<lparr>errorsByPath = [(''/a.md'', [MISSING_KEY ''title''])], effects = [], thrown = None\<rparr>
     = \<lparr>errorsByPath = [(''/a.md'', [MISSING_KEY ''title''])],
        effects = [ConsoleReport [(''/a.md'', [MISSING_KEY ''title''])]], thrown = None\<rparr>
   \<and> effects (run (optionsWith titleSpecs)
        [ExtendPageData \<lparr>regularPath = ''/a.md'', frontmatter = []\<rparr>, Updated,
         ExtendPageData \<lparr>regularPath = ''/a.md'', frontmatter = []\<rparr>, Updated])
     = [ConsoleReport [(''/a.md'', [MISSING_KEY ''title''])],
        ConsoleReport [(''/a.md'', [MISSING_KEY ''title'', MISSING_KEY ''title''])]]
   \<and> ready (optionsWith titleSpecs)
        \<lparr>errorsByPath = [(''/a.md'', [MISSING_KEY ''title''])], effects = [], thrown = None\<rparr>
     = \<lparr>errorsByPath = [],
        effects = [ConsoleReport [(''/a.md'', [MISSING_KEY ''title''])]], thrown = None\<rparr>"
  by (simp add: updated_def ready_def run_def pluginInit_def initial_def run_defs)

text \<open>
  Claim C7. For a page whose path the exclusion test matches, \<open>extendPageData\<close> returns
  at once and leaves the collector as it was, whatever the frontmatter and the schema; over
  any sequence of hook calls from the start of the plugin, the collector never holds an
  entry for an excluded path.
\<close>

theorem excluded_page_records_nothing:
  "exclude opts p \<Longrightarrow>
   (regularPath pg = p \<longrightarrow> extendPageData opts pg errors = (Normal, errors))
   \<and> map_of (errorsByPath (run opts calls)) p = None"
proof
  assume ex: "exclude opts p"
  then show "regularPath pg = p \<longrightarrow> extendPageData opts pg errors = (Normal, errors)"
    by (simp add: extendPageData_def)
  have "map_of (errorsByPath (foldl (invoke opts (pluginInit opts)) initial calls)) p = None"
    by (rule foldl_preserves [where P = "\<lambda>s. map_of (errorsByPath s) p = None"])
       (simp_all add: invoke_excluded [OF ex] initial_def)
  then show "map_of (errorsByPath (run opts calls)) p = None"
    by (simp add: run_def)
qed

theorem excluded_page_records_nothing_witness:
  "exclude excludingX ''/x.md''
   \<and> extendPageData excludingX \<lparr>regularPath = ''/x.md'', frontmatter = []\<rparr> [] = (Normal, [])
   \<and> map_of (errorsByPath (run excludingX
         [ExtendPageData \<lparr>regularPath = ''/x.md'', frontmatter = []\<rparr>,
          ExtendPageData \<lparr>regularPath = ''/a.md'', frontmatter = []\<rparr>])) ''/x.md'' = None
   \<and> errorsByPath (run excludingX
         [ExtendPageData \<lparr>regularPath = ''/x.md'', frontmatter = []\<rparr>,
          ExtendPageData \<lparr>regularPath = ''/a.md'', frontmatter = []\<rparr>])
       = [(''/a.md'', [MISSING_KEY ''title''])]"
  using excluded_page_records_nothing
    [of excludingX "''/x.md''" "\<lparr>regularPath = ''/x.md'', frontmatter = []\<rparr>" "[]"
        "[ExtendPageData \<lparr>regularPath = ''/x.md'', frontmatter = []\<rparr>,
          ExtendPageData \<lparr>regularPath = ''/a.md'', frontmatter = []\<rparr>]"]
  by (simp add: excludingX_def run_def pluginInit_def initial_def run_defs)

text \<open>
  Claim C8. With no specs (\<open>options.specs\<close> undefined, or any other falsy value) the plugin
  reports that it found no specs and has no hook: whatever the host calls, no page is
  validated, nothing is recorded, nothing is reported and nothing is thrown.
\<close>

theorem no_specs_is_noop:
  "\<not> truthySpecs (specs opts) \<Longrightarrow>
   pluginInit opts = NameOnly NoSpecsFound \<and> run opts calls = initial"
  by (simp add: pluginInit_def run_def foldl_NameOnly)

theorem no_specs_is_noop_witness:
  "\<not> truthySpecs (specs (optionsWith SUndefined))
   \<and> pluginInit (optionsWith SUndefined) = NameOnly NoSpecsFound
   \<and> run (optionsWith SUndefined)
        [ExtendPageData \<lparr>regularPath = ''/a.md'', frontmatter = [(''x'', Null)]\<rparr>, Updated, Ready]
      = \<lparr>errorsByPath = [], effects = [], thrown = None\<rparr>"
  using no_specs_is_noop
    [of "optionsWith SUndefined"
        "[ExtendPageData \<lparr>regularPath = ''/a.md'', frontmatter = [(''x'', Null)]\<rparr>, Updated, Ready]"]
  by (simp add: optionsWith_def initial_def)

text \<open>
  Claim C9. After any sequence of hook calls from the start of the plugin, every path of
  the collector has a non-empty list of violations. \<open>addError\<close> and \<open>extendPageData\<close> keep
  that invariant; \<open>addError\<close> creates the entry of a path with the first violation in it;
  and a page with no violation leaves the collector as it was.
\<close>

theorem collector_lists_never_empty:
  "nonEmptyLists (errorsByPath (run opts calls))
   \<and> (nonEmptyLists errors \<longrightarrow>
        nonEmptyLists (addError errors path e)
        \<and> nonEmptyLists (snd (extendPageData opts pg errors)))
   \<and> (map_of errors path = None \<longrightarrow> addError errors path e = errors @ [(path, [e])])
   \<and> (missingKeys (specs opts) (frontmatter pg) = []
        \<and> snd (perKeySweep (specs opts) (frontmatter pg) (map fst (frontmatter pg))) = []
      \<longrightarrow> snd (extendPageData opts pg errors) = errors)"
proof (intro conjI impI)
  have "nonEmptyLists (errorsByPath (foldl (invoke opts (pluginInit opts)) initial calls))"
  proof (rule foldl_preserves [where P = "\<lambda>s. nonEmptyLists (errorsByPath s)"])
    fix s :: pstate and c
    assume "nonEmptyLists (errorsByPath s)"
    then show "nonEmptyLists (errorsByPath (invoke opts (pluginInit opts) s c))"
      by (rule invoke_nonEmptyLists)
  next
    show "nonEmptyLists (errorsByPath initial)" by (simp add: initial_def nonEmptyLists_def)
  qed
  then show "nonEmptyLists (errorsByPath (run opts calls))" by (simp add: run_def)
next
  assume "nonEmptyLists errors"
  then show "nonEmptyLists (addError errors path e)" by (rule nonEmptyLists_addError)
next
  assume "nonEmptyLists errors"
  then show "nonEmptyLists (snd (extendPageData opts pg errors))"
    by (simp add: snd_extendPageData nonEmptyLists_addErrors)
next
  assume "map_of errors path = None"
  then show "addError errors path e = errors @ [(path, [e])]" by (rule addError_absent)
next
  assume "missingKeys (specs opts) (frontmatter pg) = []
        \<and> snd (perKeySweep (specs opts) (frontmatter pg) (map fst (frontmatter pg))) = []"
  then show "snd (extendPageData opts pg errors) = errors"
    by (simp add: snd_extendPageData)
qed

theorem collector_lists_never_empty_witness:
  "errorsByPath (run (optionsWith titleSpecs)
      [ExtendPageData \<lparr>regularPath = ''/ok.md'', frontmatter = [(''title'', String ''Hi'')]\<rparr>,
       ExtendPageData \<lparr>regularPath = ''/a.md'', frontmatter = []\<rparr>])
     = [(''/a.md'', [MISSING_KEY ''title''])]
   \<and> nonEmptyLists (errorsByPath (run (optionsWith titleSpecs)
      [ExtendPageData \<lparr>regularPath = ''/ok.md'', frontmatter = [(''title'', String ''Hi'')]\<rparr>,
       ExtendPageData \<lparr>regularPath = ''/a.md'', frontmatter = []\<rparr>]))
   \<and> addError [] ''/a.md'' (MISSING_KEY ''title'') = [(''/a.md'', [MISSING_KEY ''title''])]
   \<and> snd (extendPageData (optionsWith titleSpecs)
        \<lparr>regularPath = ''/ok.md'', frontmatter = [(''title'', String ''Hi'')]\<rparr> []) = []"
proof -
  let ?opts = "optionsWith titleSpecs"
  let ?ok = "\<lparr>regularPath = ''/ok.md'', frontmatter = [(''title'', String ''Hi'')]\<rparr>"
  let ?calls = "[ExtendPageData ?ok, ExtendPageData \<lparr>regularPath = ''/a.md'', frontmatter = []\<rparr>]"
  note th = collector_lists_never_empty
      [where opts = ?opts and calls = ?calls and errors = "[]" and path = "''/a.md''"
         and e = "MISSING_KEY ''title''" and pg = ?ok]
  have r: "errorsByPath (run ?opts ?calls) = [(''/a.md'', [MISSING_KEY ''title''])]"
    by code_simp
  have m: "map_of ([] :: collector) ''/a.md'' = None" by simp
  have z: "missingKeys (specs ?opts) (frontmatter ?ok) = []
      \<and> snd (perKeySweep (specs ?opts) (frontmatter ?ok) (map fst (frontmatter ?ok))) = []"
    by code_simp
  from th have "nonEmptyLists (errorsByPath (run ?opts ?calls))" by blast
  moreover from th m have "addError [] ''/a.md'' (MISSING_KEY ''title'') = [] @ [(''/a.md'', [MISSING_KEY ''title''])]"
    by blast
  moreover from th z have "snd (extendPageData ?opts ?ok []) = []" by blast
  ultimately show ?thesis using r by simp
qed

text \<open>
  Claim C10. Once a key has passed the type matcher and its spec has \<open>allowedValues\<close>, the
  value passes exactly when it is \<open>===\<close> to one of the allowed values; otherwise an
  \<open>INVALID_VALUE\<close> violation is recorded. For an object or array \<open>===\<close> is identity, so a
  value that is deep-equal to an allowed value and identical with none is reported.
\<close>

theorem allowed_values_by_identity:
  "key \<noteq> [] \<Longrightarrow> lookupSpec sv key = Some spec \<Longrightarrow> allowedValues spec = Some allowed \<Longrightarrow>
   valueAt fm key = v \<Longrightarrow> v \<noteq> Null \<Longrightarrow> v \<noteq> Undefined \<Longrightarrow>
   assertType v (type spec) = Inr res \<Longrightarrow> valid res \<Longrightarrow>
   checkKey sv path fm key errors =
     (Normal, if (\<exists>a \<in> set allowed. strictEq a v) then errors
              else addError errors path (INVALID_VALUE key allowed v))
   \<and> (\<forall>r i ps. v = Object r i ps \<longrightarrow>
         ((\<exists>a \<in> set allowed. strictEq a v) \<longleftrightarrow> (\<exists>i' ps'. Object r i' ps' \<in> set allowed)))
   \<and> (\<forall>r i ps. v = Object r i ps \<and> (\<exists>a \<in> set allowed. deepEqual a v)
         \<and> (\<forall>i' ps'. Object r i' ps' \<notin> set allowed) \<longrightarrow>
         checkKey sv path fm key errors =
           (Normal, addError errors path (INVALID_VALUE key allowed v)))"
proof -
  assume a: "key \<noteq> []" "lookupSpec sv key = Some spec" "allowedValues spec = Some allowed"
    "valueAt fm key = v" "v \<noteq> Null" "v \<noteq> Undefined"
    "assertType v (type spec) = Inr res" "valid res"
  then have ck: "checkKey sv path fm key errors =
     (Normal, if (\<exists>a \<in> set allowed. strictEq a v) then errors
              else addError errors path (INVALID_VALUE key allowed v))"
    by (simp add: checkKey_def typeof_undefined assertAllowedValue_iff)
  have id: "\<forall>r i ps. v = Object r i ps \<longrightarrow>
         ((\<exists>a \<in> set allowed. strictEq a v) \<longleftrightarrow> (\<exists>i' ps'. Object r i' ps' \<in> set allowed))"
    by (auto simp: strictEq_Object)
  from ck id show ?thesis by auto
qed

theorem allowed_values_by_identity_witness:
  "deepEqual (arrayA 100) (arrayA 101)
   \<and> \<not> strictEq (arrayA 100) (arrayA 101)
   \<and> assertType (arrayA 101) jsArray = Inr \<lparr>valid = True, expectedType = ''Array''\<rparr>
   \<and> checkKey tagsSpecs ''/t.md'' [(''tags'', arrayA 101)] ''tags'' []
       = (Normal, [(''/t.md'', [INVALID_VALUE ''tags'' [arrayA 100] (arrayA 101)])])
   \<and> checkKey tagsSpecs ''/t.md'' [(''tags'', arrayA 100)] ''tags'' [] = (Normal, [])"
proof -
  let ?spec = "\<lparr>required = Boolean False, type = jsArray, allowedValues = Some [arrayA 100]\<rparr>"
  let ?res = "\<lparr>valid = True, expectedType = ''Array''\<rparr>"
  have l: "lookupSpec tagsSpecs ''tags'' = Some ?spec" by code_simp
  have t1: "assertType (arrayA 101) (type ?spec) = Inr ?res" by code_simp
  have t0: "assertType (arrayA 100) (type ?spec) = Inr ?res" by code_simp
  have de: "deepEqual (arrayA 100) (arrayA 101)" by code_simp
  have ns: "\<not> strictEq (arrayA 100) (arrayA 101)" by code_simp
  have s0: "strictEq (arrayA 100) (arrayA 100)" by code_simp
  have c1: "checkKey tagsSpecs ''/t.md'' [(''tags'', arrayA 101)] ''tags'' []
      = (Normal, addError [] ''/t.md'' (INVALID_VALUE ''tags'' [arrayA 100] (arrayA 101)))"
    using allowed_values_by_identity
      [where key = "''tags''" and sv = tagsSpecs and spec = ?spec and allowed = "[arrayA 100]"
         and fm = "[(''tags'', arrayA 101)]" and v = "arrayA 101" and res = ?res
         and path = "''/t.md''" and errors = "[]", OF _ l _ _ _ _ t1]
      ns
    by (simp add: valueAt_def arrayA_def)
  have c0: "checkKey tagsSpecs ''/t.md'' [(''tags'', arrayA 100)] ''tags'' [] = (Normal, [])"
    using allowed_values_by_identity
      [where key = "''tags''" and sv = tagsSpecs and spec = ?spec and allowed = "[arrayA 100]"
         and fm = "[(''tags'', arrayA 100)]" and v = "arrayA 100" and res = ?res
         and path = "''/t.md''" and errors = "[]", OF _ l _ _ _ _ t0]
      s0
    by (simp add: valueAt_def arrayA_def)
  from de ns t1 c1 c0 show ?thesis by (simp add: addError_def)
qed

end
